theory Spec2Isabelle
  imports Main
begin

section \<open>Python strings\<close>

text \<open>
  A Python \<open>str\<close> is modelled as a \<^typ>\<open>string\<close>, a list of 8-bit code points (the Latin-1
  range of Unicode). The operations of \<open>str\<close> that \<open>app.py\<close> calls are given with the
  meaning Python gives them on that range.
\<close>

text \<open>\<open>str.isspace\<close> for one character: TAB, LF, VT, FF, CR, FS, GS, RS, US, SPACE, NEL and
  NBSP are the whitespace code points below 256.\<close>

definition py_isspace :: "char \<Rightarrow> bool" where
  "py_isspace c = (let n = (of_char c :: nat) in
     (9 \<le> n \<and> n \<le> 13) \<or> (28 \<le> n \<and> n \<le> 32) \<or> n = 133 \<or> n = 160)"

text \<open>\<open>s.lstrip\<close>, \<open>s.rstrip\<close> and \<open>s.strip\<close>, for the set of characters satisfying \<open>P\<close>.\<close>

definition lstrip_with :: "(char \<Rightarrow> bool) \<Rightarrow> string \<Rightarrow> string" where
  "lstrip_with P s = dropWhile P s"

definition rstrip_with :: "(char \<Rightarrow> bool) \<Rightarrow> string \<Rightarrow> string" where
  "rstrip_with P s = rev (dropWhile P (rev s))"

definition strip_with :: "(char \<Rightarrow> bool) \<Rightarrow> string \<Rightarrow> string" where
  "strip_with P s = rstrip_with P (lstrip_with P s)"

text \<open>\<open>s.strip()\<close>: surrounding whitespace removed.\<close>

definition py_strip :: "string \<Rightarrow> string" where
  "py_strip s = strip_with py_isspace s"

text \<open>\<open>s.strip(chars)\<close>: surrounding characters that occur in \<open>chars\<close> removed.\<close>

definition py_strip_chars :: "string \<Rightarrow> string \<Rightarrow> string" where
  "py_strip_chars chars s = strip_with (\<lambda>c. c \<in> set chars) s"

text \<open>\<open>s.lower()\<close>: \<open>A\<close>..\<open>Z\<close> and the Latin-1 capitals \<open>0xC0\<close>..\<open>0xDE\<close> (the multiplication
  sign \<open>0xD7\<close> apart) move up by 32; every other code point below 256 is kept.\<close>

definition lower_char :: "char \<Rightarrow> char" where
  "lower_char c = (let n = (of_char c :: nat) in
     if (65 \<le> n \<and> n \<le> 90) \<or> (192 \<le> n \<and> n \<le> 222 \<and> n \<noteq> 215)
     then char_of (n + 32) else c)"

definition py_lower :: "string \<Rightarrow> string" where
  "py_lower s = map lower_char s"

text \<open>\<open>s.startswith(p)\<close>.\<close>

definition startswith :: "string \<Rightarrow> string \<Rightarrow> bool" where
  "startswith s p = (take (length p) s = p)"

text \<open>The truth value of a \<open>str\<close>: the empty string is false.\<close>

definition truthy :: "string \<Rightarrow> bool" where
  "truthy s = (s \<noteq> [])"


section \<open>Removing code fences from the model's answer\<close>

text \<open>
  Lines 180 to 183 of \<open>app.py\<close>, applied to \<open>sql_from_ai\<close>:
  \<^verbatim>\<open>
  if sql_from_ai.startswith("```"):
      sql_from_ai = sql_from_ai.strip("`").strip()
      if sql_from_ai.lower().startswith("sql"):
          sql_from_ai = sql_from_ai[3:].strip()
  \<close>
\<close>

definition strip_fences :: "string \<Rightarrow> string" where
  "strip_fences sql_from_ai =
     (if startswith sql_from_ai ''```'' then
        (let s1 = py_strip (py_strip_chars ''`'' sql_from_ai) in
         if startswith (py_lower s1) ''sql'' then py_strip (drop 3 s1) else s1)
      else sql_from_ai)"

text \<open>Line 173 followed by lines 180 to 183: from the text of the first completion to the
  statement that is shown and run.\<close>

definition clean_answer :: "string \<Rightarrow> string" where
  "clean_answer content = strip_fences (py_strip content)"


section \<open>The collaborators of \<open>app.py\<close>\<close>

text \<open>An exception (an instance of \<open>Exception\<close>), with the text that \<open>str(e)\<close> gives.\<close>

datatype exn = Exn string

fun exn_text :: "exn \<Rightarrow> string" where
  "exn_text (Exn msg) = msg"

text \<open>A connection object returned by \<open>sqlite3.connect\<close>, known by its identity.\<close>

datatype conn = Conn nat

text \<open>A value in a result table or in a Python list built from it: \<open>None\<close>, an integer or
  a \<open>str\<close>.\<close>

datatype cell = CNull | CInt int | CText string

text \<open>A \<open>DataFrame\<close>: its columns in order, each with its label and its values.\<close>

type_synonym dataframe = "(string \<times> cell list) list"

text \<open>The keyword arguments of \<open>chat.completions.create\<close>; a message is its role and its
  content.\<close>

record chat_request =
  model :: string
  messages :: "(string \<times> string) list"
  temperature :: int

text \<open>The response of \<open>chat.completions.create\<close>, as far as it is read: the list
  \<open>choices\<close>, each choice with its \<open>message.content\<close>, which may be \<open>None\<close>.\<close>

type_synonym chat_response = "string option list"

text \<open>
  Everything \<open>app.py\<close> calls and does not define: the environment after \<open>load_dotenv()\<close>,
  \<open>sqlite3.connect\<close>, \<open>pd.read_sql_query\<close> (the content of the database file is part of this
  function, so a changed table is a changed world), the three helpers imported from
  \<open>mini_project2\<close>, and the hosted chat completion, which takes the API key the client was
  built with.
\<close>

record world =
  getenv :: "string \<rightharpoonup> string"
  sqlite3_connect :: "string \<Rightarrow> exn + conn"
  read_sql_query :: "string \<Rightarrow> conn \<Rightarrow> exn + dataframe"
  ex1 :: "conn \<Rightarrow> cell \<Rightarrow> exn + string"
  ex2 :: "conn \<Rightarrow> cell \<Rightarrow> exn + string"
  ex3 :: "conn \<Rightarrow> exn + string"
  chat_create :: "string \<Rightarrow> chat_request \<Rightarrow> exn + chat_response"


section \<open>State and effects\<close>

text \<open>The elements of the page that carry no computed text.\<close>

datatype element =
    PageConfig | SidebarTitle | PasswordInput | Title | Columns | ControlsSubheader
  | CustomerSelect "cell list" | QuerySelect | SqlEditor | RunButton | ResultsSubheader
  | Divider | AiHeader | QuestionInput | AskAiButton | Spinner
  | GeneratedSqlSubheader | QueryResultSubheader

text \<open>
  What a run does to the outside, in the order it happens: \<open>Opened c\<close> when
  \<open>sqlite3.connect\<close> has returned the connection \<open>c\<close>, \<open>ReadSql sql c\<close> when
  \<open>pd.read_sql_query(sql, c)\<close> is called, \<open>ChatCreate key req\<close> when the hosted model is
  called, and the calls that put something on the page.
\<close>

datatype effect =
    Opened conn
  | ReadSql string conn
  | ChatCreate string chat_request
  | Render element
  | StError string
  | StWarning string
  | SidebarInfo string
  | StCode string
  | StDataframe dataframe

text \<open>The state of the process: the value memoised by \<open>@st.cache_resource\<close> for
  \<open>get_connection\<close>, the value memoised by \<open>@st.cache_data\<close> for \<open>get_customer_names\<close>, and
  the effects so far.\<close>

record state =
  conn_cache :: "conn option"
  names_cache :: "cell list option"
  trace :: "effect list"

definition init_state :: state where
  "init_state = \<lparr>conn_cache = None, names_cache = None, trace = []\<rparr>"

definition emit :: "effect \<Rightarrow> state \<Rightarrow> state" where
  "emit e st = st\<lparr>trace := trace st @ [e]\<rparr>"

definition emits :: "effect list \<Rightarrow> state \<Rightarrow> state" where
  "emits es st = st\<lparr>trace := trace st @ es\<rparr>"


section \<open>Helper functions of \<open>app.py\<close>\<close>

definition DB_PATH :: string where
  "DB_PATH = ''normalized.db''"

text \<open>\<open>get_connection\<close> under \<open>@st.cache_resource\<close>: the body runs when nothing is memoised,
  and its value is memoised when it returns.\<close>

definition get_connection :: "world \<Rightarrow> state \<Rightarrow> (exn + conn) \<times> state" where
  "get_connection w st =
     (case conn_cache st of
        Some c \<Rightarrow> (Inr c, st)
      | None \<Rightarrow>
          (case sqlite3_connect w DB_PATH of
             Inl e \<Rightarrow> (Inl e, st)
           | Inr c \<Rightarrow> (Inr c, emit (Opened c) (st\<lparr>conn_cache := Some c\<rparr>))))"

text \<open>\<open>run_query\<close>.\<close>

definition run_query :: "world \<Rightarrow> string \<Rightarrow> state \<Rightarrow> (exn + dataframe) \<times> state" where
  "run_query w sql st =
     (case get_connection w st of
        (Inl e, st1) \<Rightarrow> (Inl e, st1)
      | (Inr c, st1) \<Rightarrow> (read_sql_query w sql c, emit (ReadSql sql c) st1))"

text \<open>A text between two apostrophes, as Python prints the \<open>repr\<close> of a plain \<open>str\<close>.\<close>

definition quoted :: "string \<Rightarrow> string" where
  "quoted s = [CHR 0x27] @ s @ [CHR 0x27]"

text \<open>\<open>df[name].tolist()\<close>: a \<open>KeyError\<close> when no column has the label, the values when one
  has; with several, \<open>df[name]\<close> is a \<open>DataFrame\<close>, which has no \<open>tolist\<close>.\<close>

definition column_tolist :: "dataframe \<Rightarrow> string \<Rightarrow> exn + cell list" where
  "column_tolist df name =
     (case filter (\<lambda>col. fst col = name) df of
        [] \<Rightarrow> Inl (Exn (quoted name))
      | [col] \<Rightarrow> Inr (snd col)
      | _ \<Rightarrow> Inl (Exn (quoted ''DataFrame'' @ '' object has no attribute '' @ quoted ''tolist'')))"

text \<open>The statement of \<open>get_customer_names\<close>, a triple-quoted literal over five lines.\<close>

definition names_sql :: string where
  "names_sql = concat
     [''\<newline>'',
      ''        SELECT DISTINCT FirstName || '', quoted '' '', '' || LastName AS Name\<newline>'',
      ''        FROM Customer\<newline>'',
      ''        ORDER BY Name;\<newline>'',
      ''        '']"

text \<open>\<open>get_customer_names\<close> under \<open>@st.cache_data\<close>: the body runs when nothing is memoised,
  and its value is memoised when it returns; an exception leaves nothing memoised.\<close>

definition get_customer_names :: "world \<Rightarrow> state \<Rightarrow> (exn + cell list) \<times> state" where
  "get_customer_names w st =
     (case names_cache st of
        Some names \<Rightarrow> (Inr names, st)
      | None \<Rightarrow>
          (case get_connection w st of
             (Inl e, st1) \<Rightarrow> (Inl e, st1)
           | (Inr c, st1) \<Rightarrow>
               (let st2 = emit (ReadSql names_sql c) st1 in
                case read_sql_query w names_sql c of
                  Inl e \<Rightarrow> (Inl e, st2)
                | Inr df \<Rightarrow>
                    (case column_tolist df ''Name'' of
                       Inl e \<Rightarrow> (Inl e, st2)
                     | Inr names \<Rightarrow> (Inr names, st2\<lparr>names_cache := Some names\<rparr>)))))"


section \<open>One run of the script\<close>

text \<open>
  What the widgets return in this run. \<open>customer_index\<close> is the position chosen in the
  customer select box, \<open>query_option\<close> the label chosen in the query select box,
  \<open>custom_sql_text\<close> the content of the SQL editor (\<open>None\<close> as long as the user has not
  touched it), \<open>run_button\<close> and \<open>ask_ai_button\<close> whether the button was pressed.
\<close>

record inputs =
  password_input :: string
  customer_index :: nat
  query_option :: string
  custom_sql_text :: "string option"
  run_button :: bool
  nl_question :: string
  ask_ai_button :: bool

text \<open>How a run ends: at the end of the script, at \<open>st.stop()\<close>, or with an exception that
  nothing catches.\<close>

datatype status = Finished | Stopped | Crashed exn

text \<open>\<open>st.selectbox(label, options)\<close>: the chosen option, \<open>None\<close> when there is none.\<close>

definition selectbox :: "cell list \<Rightarrow> nat \<Rightarrow> cell" where
  "selectbox options i = (if i < length options then options ! i else CNull)"

text \<open>\<open>st.text_area(label, value=v)\<close>: \<open>v\<close> until the user edits the field, then the user's
  text.\<close>

definition text_area :: "string \<Rightarrow> string option \<Rightarrow> string" where
  "text_area v edited = (case edited of None \<Rightarrow> v | Some t \<Rightarrow> t)"

definition sample_sql :: string where
  "sample_sql = ''SELECT * FROM Customer LIMIT 5;''"

text \<open>Lines 101 to 114: from the chosen query and customer to the statement. The third
  branch calls \<open>get_connection\<close> twice.\<close>

definition dispatch :: "world \<Rightarrow> string \<Rightarrow> cell \<Rightarrow> string \<Rightarrow> state \<Rightarrow> (exn + string) \<times> state" where
  "dispatch w option selected_customer custom_sql st =
     (if option = ''Customer orders (ex1)'' then
        (case get_connection w st of
           (Inl e, st1) \<Rightarrow> (Inl e, st1)
         | (Inr c, st1) \<Rightarrow> (ex1 w c selected_customer, st1))
      else if option = ''Customer total (ex2)'' then
        (case get_connection w st of
           (Inl e, st1) \<Rightarrow> (Inl e, st1)
         | (Inr c, st1) \<Rightarrow> (ex2 w c selected_customer, st1))
      else if option = ''All customers total (ex3)'' then
        (case get_connection w st of
           (Inl e, st1) \<Rightarrow> (Inl e, st1)
         | (Inr c, st1) \<Rightarrow>
             (case get_connection w st1 of
                (Inl e, st2) \<Rightarrow> (Inl e, st2)
              | (Inr c2, st2) \<Rightarrow> (ex3 w c2, st2)))
      else (Inr custom_sql, st))"

text \<open>Lines 116 to 122: the statement is shown, run, and its table or its error is shown.\<close>

definition show_and_run :: "world \<Rightarrow> string \<Rightarrow> state \<Rightarrow> state" where
  "show_and_run w sql st =
     (case run_query w sql (emit (StCode sql) st) of
        (Inl e, st1) \<Rightarrow> emit (StError (''Error running query: '' @ exn_text e)) st1
      | (Inr df, st1) \<Rightarrow> emit (StDataframe df) st1)"

text \<open>Lines 97 to 122, the right column. An exception of \<open>dispatch\<close> is outside the \<open>try\<close>.\<close>

definition results :: "world \<Rightarrow> inputs \<Rightarrow> cell \<Rightarrow> string \<Rightarrow> state \<Rightarrow> status \<times> state" where
  "results w inp selected_customer custom_sql st =
     (let st1 = emit (Render ResultsSubheader) st in
      if run_button inp then
        (case dispatch w (query_option inp) selected_customer custom_sql st1 of
           (Inl e, st2) \<Rightarrow> (Crashed e, st2)
         | (Inr sql, st2) \<Rightarrow> (Finished, show_and_run w sql st2))
      else (Finished, st1))"


text \<open>The three prompt texts of lines 137 to 160; \<open>user_prompt\<close> is an f-string around the
  schema and the question.\<close>

definition schema_description :: string where
  "schema_description = concat
     [''\<newline>'',
      ''        Tables:\<newline>'',
      ''        - Region(RegionID, Region)\<newline>'',
      ''        - Country(CountryID, Country, RegionID)\<newline>'',
      ''        - Customer(CustomerID, FirstName, LastName, Address, City, CountryID)\<newline>'',
      ''        - ProductCategory(ProductCategoryID, ProductCategory, ProductCategoryDescription)\<newline>'',
      ''        - Product(ProductID, ProductName, ProductUnitPrice, ProductCategoryID)\<newline>'',
      ''        - OrderDetail(OrderID, CustomerID, ProductID, OrderDate, QuantityOrdered)\<newline>'',
      ''        '']"

definition system_prompt :: string where
  "system_prompt = concat
     [''You are an assistant that writes SQL for a SQLite database. '',
      ''Return ONLY a valid SQL SELECT statement. '',
      ''Do not include explanations, comments, or markdown.'']"

definition user_prompt :: "string \<Rightarrow> string" where
  "user_prompt question = concat
     [''\<newline>'',
      ''        '', schema_description, ''\<newline>'',
      ''\<newline>'',
      ''        Question:\<newline>'',
      ''        '', question, ''\<newline>'',
      ''\<newline>'',
      ''        SQL:\<newline>'',
      ''        '']"

definition make_request :: "string \<Rightarrow> chat_request" where
  "make_request question =
     \<lparr>model = ''llama-3.3-70b-versatile'',
      messages = [(''system'', system_prompt), (''user'', user_prompt question)],
      temperature = 0\<rparr>"

text \<open>Line 173, \<open>response.choices[0].message.content.strip()\<close>: an \<open>IndexError\<close> without
  choices, an \<open>AttributeError\<close> when the content is \<open>None\<close>.\<close>

definition first_content :: "chat_response \<Rightarrow> exn + string" where
  "first_content choices =
     (case choices of
        [] \<Rightarrow> Inl (Exn ''list index out of range'')
      | None # _ \<Rightarrow>
          Inl (Exn (quoted ''NoneType'' @ '' object has no attribute '' @ quoted ''strip''))
      | Some content # _ \<Rightarrow> Inr (py_strip content))"

text \<open>Lines 162 to 177, the body of the \<open>try\<close>: the call, then the text of its answer.\<close>

definition ask_model :: "world \<Rightarrow> string \<Rightarrow> string \<Rightarrow> state \<Rightarrow> (exn + string) \<times> state" where
  "ask_model w key question st =
     (let req = make_request question;
          st1 = emit (ChatCreate key req) (emit (Render Spinner) st) in
      case chat_create w key req of
        Inl e \<Rightarrow> (Inl e, st1)
      | Inr response \<Rightarrow> (first_content response, st1))"

text \<open>Lines 133 to 193: what pressing the button \<open>Ask AI\<close> does.\<close>

definition ask_ai :: "world \<Rightarrow> string \<Rightarrow> string \<Rightarrow> state \<Rightarrow> status \<times> state" where
  "ask_ai w key question st =
     (if \<not> truthy (py_strip question) then
        (Finished, emit (StWarning ''Please type a question.'') st)
      else
        (case ask_model w key question st of
           (Inl e, st1) \<Rightarrow> (Stopped, emit (StError (''Groq API error: '' @ exn_text e)) st1)
         | (Inr answer, st1) \<Rightarrow>
             (let sql_from_ai = strip_fences answer;
                  st2 = emits [Render GeneratedSqlSubheader, StCode sql_from_ai] st1 in
              case run_query w sql_from_ai st2 of
                (Inl e, st3) \<Rightarrow>
                  (Finished, emit (StError (''SQL execution error: '' @ exn_text e)) st3)
              | (Inr df, st3) \<Rightarrow>
                  (Finished, emits [Render QueryResultSubheader, StDataframe df] st3))))"

text \<open>Lines 124 to 193, the section below the two columns.\<close>

definition ai_section :: "world \<Rightarrow> string \<Rightarrow> inputs \<Rightarrow> state \<Rightarrow> status \<times> state" where
  "ai_section w key inp st =
     (let st1 = emits [Render Divider, Render AiHeader, Render QuestionInput,
                       Render AskAiButton] st in
      if ask_ai_button inp then ask_ai w key (nl_question inp) st1 else (Finished, st1))"

text \<open>Lines 63 to 193, the page behind the password. An exception of
  \<open>get_customer_names\<close> is caught nowhere.\<close>

definition dashboard :: "world \<Rightarrow> string \<Rightarrow> inputs \<Rightarrow> state \<Rightarrow> status \<times> state" where
  "dashboard w key inp st =
     (case get_customer_names w
             (emits [Render Title, Render Columns, Render ControlsSubheader] st) of
        (Inl e, st1) \<Rightarrow> (Crashed e, st1)
      | (Inr customers, st1) \<Rightarrow>
          (let selected_customer = selectbox customers (customer_index inp);
               st2 = emits [Render (CustomerSelect customers), Render QuerySelect] st1;
               custom_sql = (if query_option inp = ''Custom SQL''
                             then text_area sample_sql (custom_sql_text inp) else []);
               st3 = (if query_option inp = ''Custom SQL''
                      then emit (Render SqlEditor) st2 else st2);
               st4 = emit (Render RunButton) st3 in
           case results w inp selected_customer custom_sql st4 of
             (Finished, st5) \<Rightarrow> ai_section w key inp st5
           | (status, st5) \<Rightarrow> (status, st5)))"

text \<open>Lines 15 to 60 and what follows them: the two settings are read, a missing or empty
  API key stops the run, and so does a password that is not the expected one.\<close>

definition script :: "world \<Rightarrow> inputs \<Rightarrow> state \<Rightarrow> status \<times> state" where
  "script w inp st =
     (let APP_PASSWORD = (case getenv w ''APP_PASSWORD'' of None \<Rightarrow> ''test123'' | Some p \<Rightarrow> p);
          GROQ_API_KEY = getenv w ''GROQ_API_KEY'' in
      case GROQ_API_KEY of
        None \<Rightarrow> (Stopped, emit (StError ''GROQ_API_KEY not found in environment.'') st)
      | Some key \<Rightarrow>
          if \<not> truthy key then
            (Stopped, emit (StError ''GROQ_API_KEY not found in environment.'') st)
          else
            (let st1 = emits [Render PageConfig, Render SidebarTitle, Render PasswordInput] st in
             if password_input inp \<noteq> APP_PASSWORD then
               (Stopped, emit (SidebarInfo ''Enter the password to view the dashboard.'') st1)
             else dashboard w key inp st1))"


text \<open>The connections opened so far, and the calls of the hosted model and of
  \<open>pd.read_sql_query\<close> so far.\<close>

fun is_opened :: "effect \<Rightarrow> bool" where
  "is_opened (Opened c) = True"
| "is_opened _ = False"

fun is_chat_create :: "effect \<Rightarrow> bool" where
  "is_chat_create (ChatCreate key req) = True"
| "is_chat_create _ = False"

fun is_read_sql :: "effect \<Rightarrow> bool" where
  "is_read_sql (ReadSql sql c) = True"
| "is_read_sql _ = False"

definition opened :: "state \<Rightarrow> effect list" where
  "opened st = filter is_opened (trace st)"

definition chat_calls :: "state \<Rightarrow> effect list" where
  "chat_calls st = filter is_chat_create (trace st)"

definition sql_runs :: "state \<Rightarrow> effect list" where
  "sql_runs st = filter is_read_sql (trace st)"


section \<open>Notions used in the statements\<close>

text \<open>A text begins with the three letters \<open>s\<close>, \<open>q\<close>, \<open>l\<close>, each in either case.\<close>

fun sql_tagged :: "string \<Rightarrow> bool" where
  "sql_tagged (a # b # c # rest) =
     (a \<in> {CHR ''s'', CHR ''S''} \<and> b \<in> {CHR ''q'', CHR ''Q''} \<and> c \<in> {CHR ''l'', CHR ''L''})"
| "sql_tagged _ = False"

text \<open>The two characters backslash and \<open>n\<close>, which are not a line feed.\<close>

definition backslash_n :: string where
  "backslash_n = [CHR 0x5C, CHR ''n'']"

text \<open>The life of one process: the script runs once for each interaction, each run in the
  world and with the widget values of its moment, on the state the run before left.\<close>

fun runs :: "(world \<times> inputs) list \<Rightarrow> state \<Rightarrow> state" where
  "runs [] st = st"
| "runs (r # rs) st = runs rs (snd (script (fst r) (snd r) st))"

text \<open>
  A small world to run the definitions in: the API key is set and the password is not, the
  database opens, the Customer table has two rows, the sample statement returns a table,
  every other statement is rejected, and the hosted model is out of reach.
\<close>

definition demo_world :: world where
  "demo_world =
     \<lparr>getenv = [''GROQ_API_KEY'' \<mapsto> ''gsk_demo''],
      sqlite3_connect = (\<lambda>path. Inr (Conn 0)),
      read_sql_query = (\<lambda>sql c.
         if sql = names_sql then Inr [(''Name'', [CText ''Ann Lee'', CText ''Bo Ray''])]
         else if sql = sample_sql then Inr [(''CustomerID'', [CInt 1, CInt 2])]
         else Inl (Exn ''syntax error'')),
      ex1 = (\<lambda>c name. Inr ''SELECT 1;''),
      ex2 = (\<lambda>c name. Inr ''SELECT 2;''),
      ex3 = (\<lambda>c. Inr ''SELECT 3;''),
      chat_create = (\<lambda>key req. Inl (Exn ''rate limit reached''))\<rparr>"

text \<open>The same world after the Customer table has changed.\<close>

definition changed_world :: world where
  "changed_world = demo_world
     \<lparr>read_sql_query := (\<lambda>sql c.
         if sql = names_sql then Inr [(''Name'', [CText ''Cy Poe''])]
         else Inl (Exn ''syntax error''))\<rparr>"

text \<open>The same world without the API key.\<close>

definition keyless_world :: world where
  "keyless_world = demo_world\<lparr>getenv := Map.empty\<rparr>"

text \<open>The same world with a model that answers with a fenced statement.\<close>

definition answering_world :: world where
  "answering_world = demo_world
     \<lparr>chat_create := (\<lambda>key req. Inr [Some ''```sql\<newline>SELEC 1;\<newline>```''])\<rparr>"

text \<open>Widget values: the default password, custom SQL chosen, the editor emptied by the
  user, \<open>Run query\<close> pressed.\<close>

definition demo_inputs :: inputs where
  "demo_inputs =
     \<lparr>password_input = ''test123'', customer_index = 0, query_option = ''Custom SQL'',
      custom_sql_text = Some [], run_button = True, nl_question = [],
      ask_ai_button = False\<rparr>"

text \<open>The state of a process that has opened its connection.\<close>

definition connected_state :: state where
  "connected_state = \<lparr>conn_cache = Some (Conn 0), names_cache = None, trace = [Opened (Conn 0)]\<rparr>"

text \<open>
  How the memoised values and the opened connections can move between two moments of a
  process: a memoised name list stays; a memoised connection stays, and then nothing is
  opened; without one, either nothing is opened or exactly one connection is opened and
  memoised.
\<close>

definition evolves :: "state \<Rightarrow> state \<Rightarrow> bool" where
  "evolves st st' =
     ((\<forall>names. names_cache st = Some names \<longrightarrow> names_cache st' = Some names)
      \<and> (case conn_cache st of
            Some c \<Rightarrow> conn_cache st' = Some c \<and> opened st' = opened st
          | None \<Rightarrow>
              (conn_cache st' = None \<and> opened st' = opened st)
              \<or> (\<exists>c. conn_cache st' = Some c \<and> opened st' = opened st @ [Opened c])))"


section \<open>Stripping\<close>

lemma strip_with_Nil: "strip_with P s = [] \<longleftrightarrow> (\<forall>c\<in>set s. P c)"
proof
  assume "strip_with P s = []"
  then have "\<forall>c\<in>set (dropWhile P s). P c"
    by (simp add: strip_with_def lstrip_with_def rstrip_with_def)
  then have "dropWhile P s = []"
    using hd_dropWhile [of P s] hd_in_set [of "dropWhile P s"] by blast
  then show "\<forall>c\<in>set s. P c" by simp
next
  assume "\<forall>c\<in>set s. P c"
  then show "strip_with P s = []"
    unfolding strip_with_def lstrip_with_def rstrip_with_def
    by (auto dest: set_dropWhileD)
qed

text \<open>Stripping a run of \<open>b\<close> on each side gives back what lies between, when that neither
  begins nor ends with a stripped character.\<close>

lemma strip_with_fenced:
  assumes "P b" and "m = [] \<or> (\<not> P (hd m) \<and> \<not> P (last m))"
  shows "strip_with P (replicate n b @ m @ replicate k b) = m"
proof (cases "m = []")
  case True
  then have "\<forall>c\<in>set (replicate n b @ m @ replicate k b). P c" using assms(1) by auto
  then show ?thesis using True strip_with_Nil by blast
next
  case False
  with assms(2) have h: "\<not> P (hd m)" and l: "\<not> P (last m)" by auto
  have "dropWhile P (replicate n b @ (m @ replicate k b)) = dropWhile P (m @ replicate k b)"
    by (rule dropWhile_append2) (use assms(1) in auto)
  also have "\<dots> = m @ replicate k b"
    using False h by (cases m) simp_all
  finally have 1: "dropWhile P (replicate n b @ m @ replicate k b) = m @ replicate k b" .
  have "dropWhile P (replicate k b @ rev m) = dropWhile P (rev m)"
    by (rule dropWhile_append2) (use assms(1) in auto)
  also have "\<dots> = rev m"
    using False l by (cases "rev m") (simp_all add: last_rev [symmetric] hd_rev)
  finally have 2: "dropWhile P (rev (m @ replicate k b)) = rev m"
    by (simp only: rev_append rev_replicate)
  show ?thesis
    unfolding strip_with_def lstrip_with_def rstrip_with_def 1 2 by simp
qed

text \<open>Every text that starts with three backticks is a run of at least three backticks, a
  middle part with no backtick at either end, and a run of backticks.\<close>

lemma fenced_decomposition:
  assumes "startswith s ''```''"
  shows "\<exists>n m k. 3 \<le> n \<and> (m = [] \<or> (hd m \<noteq> CHR 0x60 \<and> last m \<noteq> CHR 0x60))
           \<and> s = replicate n (CHR 0x60) @ m @ replicate k (CHR 0x60)"
proof -
  define P where "P = (\<lambda>c. c = CHR 0x60)"
  define a where "a = takeWhile P s"
  define r where "r = dropWhile P s"
  define z where "z = takeWhile P (rev r)"
  define m where "m = rev (dropWhile P (rev r))"
  have s: "s = a @ r" by (simp add: a_def r_def)
  have "rev r = z @ rev m" by (simp add: z_def m_def)
  then have r: "r = m @ rev z" by (metis rev_append rev_rev_ident)
  have a: "a = replicate (length a) (CHR 0x60)"
    unfolding a_def
    by (rule replicate_length_same [symmetric]) (auto simp: P_def dest: set_takeWhileD)
  have "z = replicate (length z) (CHR 0x60)"
    unfolding z_def
    by (rule replicate_length_same [symmetric]) (auto simp: P_def dest: set_takeWhileD)
  then have z: "rev z = replicate (length z) (CHR 0x60)"
    by (metis rev_replicate)
  have "take (length ''```'') s = ''```''" using assms by (simp only: startswith_def)
  then obtain t where "s = ''```'' @ t" by (metis append_take_drop_id)
  then have "3 \<le> length a" by (simp add: a_def P_def)
  moreover have "m = [] \<or> (hd m \<noteq> CHR 0x60 \<and> last m \<noteq> CHR 0x60)"
  proof (cases "m = []")
    case False
    then have "dropWhile P (rev r) \<noteq> []" by (simp add: m_def)
    then have "\<not> P (hd (dropWhile P (rev r)))" by (rule hd_dropWhile)
    then have l: "last m \<noteq> CHR 0x60" using False by (simp add: m_def P_def last_rev)
    have "r \<noteq> []" using False r by simp
    then have "\<not> P (hd r)" unfolding r_def by (rule hd_dropWhile)
    then have "hd m \<noteq> CHR 0x60" using False r by (simp add: P_def)
    with l show ?thesis by simp
  qed simp
  ultimately show ?thesis using s r a z by metis
qed

text \<open>The same with any stripped characters on the two sides.\<close>

lemma strip_with_core:
  assumes "\<forall>x\<in>set xs. P x" and "\<forall>y\<in>set ys. P y"
    and "m = [] \<or> (\<not> P (hd m) \<and> \<not> P (last m))"
  shows "strip_with P (xs @ m @ ys) = m"
proof (cases "m = []")
  case True
  then have "\<forall>c\<in>set (xs @ m @ ys). P c" using assms(1,2) by auto
  then show ?thesis using True strip_with_Nil by blast
next
  case False
  with assms(3) have h: "\<not> P (hd m)" and l: "\<not> P (last m)" by auto
  have "dropWhile P (xs @ (m @ ys)) = dropWhile P (m @ ys)"
    by (rule dropWhile_append2) (use assms(1) in auto)
  also have "\<dots> = m @ ys"
    using False h by (cases m) simp_all
  finally have 1: "dropWhile P (xs @ m @ ys) = m @ ys" .
  have "dropWhile P (rev ys @ rev m) = dropWhile P (rev m)"
    by (rule dropWhile_append2) (use assms(2) in auto)
  also have "\<dots> = rev m"
    using False l by (cases "rev m") (simp_all add: last_rev [symmetric] hd_rev)
  finally have 2: "dropWhile P (rev (m @ ys)) = rev m"
    by (simp only: rev_append)
  show ?thesis
    unfolding strip_with_def lstrip_with_def rstrip_with_def 1 2 by simp
qed

text \<open>Every text is stripped characters, a part that neither begins nor ends with one, and
  stripped characters; and every text is stripped characters followed by a part that does
  not begin with one.\<close>

lemma strip_with_decomposition:
  "\<exists>xs m ys. s = xs @ m @ ys \<and> list_all P xs \<and> list_all P ys
      \<and> (m = [] \<or> (\<not> P (hd m) \<and> \<not> P (last m)))"
proof -
  define xs where "xs = takeWhile P s"
  define r where "r = dropWhile P s"
  define z where "z = takeWhile P (rev r)"
  define m where "m = rev (dropWhile P (rev r))"
  have s: "s = xs @ r" by (simp add: xs_def r_def)
  have "rev r = z @ rev m" by (simp add: z_def m_def)
  then have r: "r = m @ rev z" by (metis rev_append rev_rev_ident)
  have a: "list_all P xs" unfolding xs_def list_all_iff by (auto dest: set_takeWhileD)
  have z: "list_all P (rev z)" unfolding z_def list_all_iff by (auto dest: set_takeWhileD)
  have "m = [] \<or> (\<not> P (hd m) \<and> \<not> P (last m))"
  proof (cases "m = []")
    case False
    then have "dropWhile P (rev r) \<noteq> []" by (simp add: m_def)
    then have "\<not> P (hd (dropWhile P (rev r)))" by (rule hd_dropWhile)
    then have l: "\<not> P (last m)" using False by (simp add: m_def last_rev)
    have "r \<noteq> []" using False r by simp
    then have "\<not> P (hd r)" unfolding r_def by (rule hd_dropWhile)
    then have "\<not> P (hd m)" using False r by simp
    with l show ?thesis by simp
  qed simp
  then show ?thesis using s r a z by blast
qed

lemma lstrip_decomposition:
  "\<exists>ws u. s = ws @ u \<and> list_all P ws \<and> (u = [] \<or> \<not> P (hd u))"
proof -
  have "s = takeWhile P s @ dropWhile P s" by simp
  moreover have "list_all P (takeWhile P s)"
    unfolding list_all_iff by (auto dest: set_takeWhileD)
  moreover have "dropWhile P s = [] \<or> \<not> P (hd (dropWhile P s))"
    using hd_dropWhile [of P s] by blast
  ultimately show ?thesis by blast
qed


section \<open>Lower case and the language tag\<close>

lemma of_char_lower_char:
  "(of_char (lower_char c) :: nat) =
     (if (65 \<le> (of_char c :: nat) \<and> (of_char c :: nat) \<le> 90)
         \<or> (192 \<le> (of_char c :: nat) \<and> (of_char c :: nat) \<le> 222 \<and> (of_char c :: nat) \<noteq> 215)
      then of_char c + 32 else of_char c)"
  by (simp add: lower_char_def Let_def)

lemma char_eq_code: "c = d \<longleftrightarrow> (of_char c :: nat) = of_char d"
  by simp

lemma lower_char_s: "lower_char c = CHR ''s'' \<longleftrightarrow> c = CHR ''s'' \<or> c = CHR ''S''"
  unfolding char_eq_code [of _ "CHR ''s''"] char_eq_code [of _ "CHR ''S''"] of_char_lower_char
  by (auto split: if_splits)

lemma lower_char_q: "lower_char c = CHR ''q'' \<longleftrightarrow> c = CHR ''q'' \<or> c = CHR ''Q''"
  unfolding char_eq_code [of _ "CHR ''q''"] char_eq_code [of _ "CHR ''Q''"] of_char_lower_char
  by (auto split: if_splits)

lemma lower_char_l: "lower_char c = CHR ''l'' \<longleftrightarrow> c = CHR ''l'' \<or> c = CHR ''L''"
  unfolding char_eq_code [of _ "CHR ''l''"] char_eq_code [of _ "CHR ''L''"] of_char_lower_char
  by (auto split: if_splits)

lemma startswith_lower_sql: "startswith (py_lower t) ''sql'' = sql_tagged t"
  by (cases t rule: sql_tagged.cases)
    (simp_all add: startswith_def py_lower_def lower_char_s lower_char_q lower_char_l)

lemma startswith_replicate:
  "3 \<le> n \<Longrightarrow> startswith (replicate n (CHR 0x60) @ r) ''```''"
proof -
  assume "3 \<le> n"
  then obtain j where "n = 3 + j" using le_Suc_ex by blast
  then show ?thesis by (simp add: startswith_def replicate_add numeral_3_eq_3)
qed


section \<open>The code fences\<close>

text \<open>
  Claim C1, as it is written, with the two characters backslash and \<open>n\<close> in the input: the
  fenced statement does not reduce to \<open>SELECT 1;\<close>. Backslash and \<open>n\<close> are no whitespace, so
  they stay where they are.
\<close>

theorem strip_fences_backslash_n_kept:
  "strip_fences (''```sql'' @ backslash_n @ ''SELECT 1;'' @ backslash_n @ ''```'')
     \<noteq> ''SELECT 1;''"
  by code_simp

text \<open>
  Claim C1, with a line feed where the specification writes backslash and \<open>n\<close>: the fenced
  statement with the tag \<open>sql\<close> reduces to \<open>SELECT 1;\<close>, the statement without fences is
  unchanged, and the fenced statement without a tag reduces to \<open>SELECT 1;\<close>.
\<close>

theorem strip_fences_test_vectors:
  "strip_fences ''```sql\<newline>SELECT 1;\<newline>```'' = ''SELECT 1;''
   \<and> strip_fences ''SELECT 1;'' = ''SELECT 1;''
   \<and> strip_fences ''```\<newline>SELECT 1;\<newline>```'' = ''SELECT 1;''"
  by code_simp

text \<open>The same three inputs through \<open>clean_answer\<close>, which trims first.\<close>

lemma clean_answer_test_vectors:
  "clean_answer ''```sql\<newline>SELECT 1;\<newline>```'' = ''SELECT 1;''
   \<and> clean_answer ''SELECT 1;'' = ''SELECT 1;''
   \<and> clean_answer ''```\<newline>SELECT 1;\<newline>```'' = ''SELECT 1;''"
  by code_simp

text \<open>What the input with backslash and \<open>n\<close> does reduce to.\<close>

lemma strip_fences_backslash_n_value:
  "strip_fences (''```sql'' @ backslash_n @ ''SELECT 1;'' @ backslash_n @ ''```'')
     = backslash_n @ ''SELECT 1;'' @ backslash_n"
  by code_simp

text \<open>
  Claim C10. An answer that begins with three backticks is \<open>n \<ge> 3\<close> backticks, a middle part
  \<open>m\<close> with no backtick at either end, and \<open>k \<ge> 0\<close> backticks (\<open>fenced_decomposition\<close>);
  the middle part is whitespace \<open>lead\<close>, a text \<open>t\<close> with no whitespace at either end, and
  whitespace \<open>trail\<close> (\<open>strip_with_decomposition\<close>). All the backticks on both sides go,
  whatever \<open>n\<close> and \<open>k\<close> are, and so does the whitespace around \<open>t\<close>. When \<open>t\<close> does not
  begin with \<open>sql\<close> in any case, the result is \<open>t\<close>. When it does, its first three
  characters go as well, whatever follows them, together with the whitespace \<open>gap\<close> behind
  them: the result is the rest \<open>u\<close>.
\<close>

theorem strip_fences_fenced:
  assumes "3 \<le> n"
    and "m = lead @ t @ trail"
    and "list_all py_isspace lead" and "list_all py_isspace trail"
    and "t = [] \<or> (\<not> py_isspace (hd t) \<and> \<not> py_isspace (last t))"
    and "m = [] \<or> (hd m \<noteq> CHR 0x60 \<and> last m \<noteq> CHR 0x60)"
  shows "(\<not> sql_tagged t \<longrightarrow>
            strip_fences (replicate n (CHR 0x60) @ m @ replicate k (CHR 0x60)) = t)
         \<and> (sql_tagged t \<and> drop 3 t = gap @ u \<and> list_all py_isspace gap
              \<and> (u = [] \<or> \<not> py_isspace (hd u)) \<longrightarrow>
            strip_fences (replicate n (CHR 0x60) @ m @ replicate k (CHR 0x60)) = u)"
proof -
  have a: "py_strip_chars ''`'' (replicate n (CHR 0x60) @ m @ replicate k (CHR 0x60)) = m"
    unfolding py_strip_chars_def using assms(6) by (intro strip_with_fenced) simp_all
  have b: "py_strip m = t"
    unfolding py_strip_def assms(2) using assms(3,4,5)
    by (intro strip_with_core) (simp_all add: list_all_iff)
  have sf: "strip_fences (replicate n (CHR 0x60) @ m @ replicate k (CHR 0x60))
          = (if sql_tagged t then py_strip (drop 3 t) else t)"
    using startswith_replicate [OF assms(1), of "m @ replicate k (CHR 0x60)"] a b
    by (simp add: strip_fences_def startswith_lower_sql Let_def)
  have c: "py_strip (drop 3 t) = u"
    if tag: "sql_tagged t" and d: "drop 3 t = gap @ u" and w: "list_all py_isspace gap"
      and u: "u = [] \<or> \<not> py_isspace (hd u)"
  proof -
    have "u = [] \<or> (\<not> py_isspace (hd u) \<and> \<not> py_isspace (last u))"
    proof (cases "u = []")
      case False
      then have "drop 3 t \<noteq> []" using d by simp
      then have "last (drop 3 t) = last t" by simp
      moreover have "t \<noteq> []" using tag by auto
      ultimately have "\<not> py_isspace (last (drop 3 t))" using assms(5) by simp
      then have "\<not> py_isspace (last u)" using d False by simp
      with u False show ?thesis by simp
    qed simp
    then have "strip_with py_isspace (gap @ u @ []) = u"
      using w by (intro strip_with_core) (simp_all add: list_all_iff)
    then show ?thesis by (simp add: py_strip_def d)
  qed
  show ?thesis using sf c by simp
qed

text \<open>A fenced text on lines of its own that begins with \<open>sqlite_master\<close> loses \<open>sql\<close>; a
  tag between spaces goes with the spaces; four and two backticks go like three and
  three.\<close>

theorem strip_fences_fenced_witness:
  "strip_fences ''```\<newline>sqlite_master\<newline>```'' = ''ite_master''
   \<and> strip_fences ''``` sql SELECT 1; ```'' = ''SELECT 1;''
   \<and> strip_fences ''```` SELECT 1;\<newline>``'' = ''SELECT 1;''"
proof -
  have 1: "strip_fences (replicate 3 (CHR 0x60) @ ''\<newline>sqlite_master\<newline>'' @ replicate 3 (CHR 0x60))
             = ''ite_master''"
    using strip_fences_fenced [where n = 3 and m = "''\<newline>sqlite_master\<newline>''" and lead = "''\<newline>''"
        and t = "''sqlite_master''" and trail = "''\<newline>''" and gap = "[]" and u = "''ite_master''"
        and k = 3]
    by (simp add: py_isspace_def)
  have 2: "strip_fences (replicate 3 (CHR 0x60) @ '' sql SELECT 1; '' @ replicate 3 (CHR 0x60))
             = ''SELECT 1;''"
    using strip_fences_fenced [where n = 3 and m = "'' sql SELECT 1; ''" and lead = "'' ''"
        and t = "''sql SELECT 1;''" and trail = "'' ''" and gap = "'' ''" and u = "''SELECT 1;''"
        and k = 3]
    by (simp add: py_isspace_def)
  have 3: "strip_fences (replicate 4 (CHR 0x60) @ '' SELECT 1;\<newline>'' @ replicate 2 (CHR 0x60))
             = ''SELECT 1;''"
    using strip_fences_fenced [where n = 4 and m = "'' SELECT 1;\<newline>''" and lead = "'' ''"
        and t = "''SELECT 1;''" and trail = "''\<newline>''" and gap = "[]" and u = "[]" and k = 2]
    by (simp add: py_isspace_def)
  show ?thesis using 1 2 3 by (simp add: numeral_3_eq_3 eval_nat_numeral)
qed


section \<open>State bookkeeping\<close>

lemma emit_fields [simp]:
  "conn_cache (emit e st) = conn_cache st"
  "names_cache (emit e st) = names_cache st"
  "trace (emit e st) = trace st @ [e]"
  by (simp_all add: emit_def)

lemma emits_fields [simp]:
  "conn_cache (emits es st) = conn_cache st"
  "names_cache (emits es st) = names_cache st"
  "trace (emits es st) = trace st @ es"
  by (simp_all add: emits_def)

lemma get_connection_names_cache:
  "get_connection w st = (r, st1) \<Longrightarrow> names_cache st1 = names_cache st"
  unfolding get_connection_def by (auto split: option.splits sum.splits)

lemma get_connection_trace:
  "get_connection w st = (Inr c, st1) \<Longrightarrow>
     trace st1 = trace st @ (if conn_cache st = None then [Opened c] else [])"
  unfolding get_connection_def
  by (auto split: option.splits sum.splits)

lemma get_connection_emit:
  "get_connection w st = (r, st1) \<Longrightarrow>
     fst (get_connection w (emit x st)) = r
     \<and> conn_cache (emit x st) = conn_cache st"
  unfolding get_connection_def
  by (auto split: option.splits sum.splits)

lemma get_connection_fst_cong:
  "conn_cache st' = conn_cache st \<Longrightarrow> fst (get_connection w st') = fst (get_connection w st)"
  unfolding get_connection_def by (auto split: option.splits sum.splits)

lemma run_query_rejected:
  assumes "fst (get_connection w st) = Inr c" and "read_sql_query w sql c = Inl e"
    and "conn_cache st' = conn_cache st"
  shows "fst (run_query w sql st') = Inl e
         \<and> trace (snd (run_query w sql st'))
             = trace st' @ (if conn_cache st = None then [Opened c] else []) @ [ReadSql sql c]"
proof -
  obtain r st2 where g: "get_connection w st' = (r, st2)" by (cases "get_connection w st'")
  have "r = Inr c" using get_connection_fst_cong [OF assms(3), of w] g assms(1) by simp
  then have g': "get_connection w st' = (Inr c, st2)" using g by simp
  have "trace st2 = trace st' @ (if conn_cache st' = None then [Opened c] else [])"
    using g' by (rule get_connection_trace)
  then show ?thesis using g' assms(2,3) by (simp add: run_query_def)
qed


lemma get_customer_names_cached:
  "get_customer_names w st = (Inr names, st1) \<Longrightarrow> names_cache st1 = Some names"
proof -
  assume a: "get_customer_names w st = (Inr names, st1)"
  obtain r0 st0 where g: "get_connection w st = (r0, st0)" by (cases "get_connection w st")
  show ?thesis using a g
    by (cases "names_cache st"; cases r0)
      (auto simp: get_customer_names_def Let_def split: sum.splits)
qed


section \<open>What any part of a run can do to the memoised values\<close>

lemma evolves_refl [simp]: "evolves st st"
  by (simp add: evolves_def split: option.splits)

lemma evolves_trans: "evolves a b \<Longrightarrow> evolves b c \<Longrightarrow> evolves a c"
  unfolding evolves_def by (auto split: option.splits)

lemma evolves_emit:
  "\<not> is_opened e \<Longrightarrow> evolves st st' \<Longrightarrow> evolves st (emit e st')"
  unfolding evolves_def opened_def by (auto split: option.splits)

lemma evolves_emits:
  "\<forall>e\<in>set es. \<not> is_opened e \<Longrightarrow> evolves st st' \<Longrightarrow> evolves st (emits es st')"
  unfolding evolves_def opened_def by (auto split: option.splits)

lemma evolves_before_emit:
  "\<not> is_opened e \<Longrightarrow> evolves (emit e st) st' \<Longrightarrow> evolves st st'"
  unfolding evolves_def opened_def by (auto split: option.splits)

lemma evolves_before_emits:
  "\<forall>e\<in>set es. \<not> is_opened e \<Longrightarrow> evolves (emits es st) st' \<Longrightarrow> evolves st st'"
  unfolding evolves_def opened_def by (auto split: option.splits)

lemma evolves_update_names:
  "names_cache st' = None \<Longrightarrow> evolves st st' \<Longrightarrow> evolves st (st'\<lparr>names_cache := Some names\<rparr>)"
  unfolding evolves_def opened_def by (auto split: option.splits)

lemma evolves_get_connection: "evolves st (snd (get_connection w st))"
  unfolding evolves_def opened_def get_connection_def
  by (auto split: option.splits sum.splits)

lemma evolves_get_connection_eq: "get_connection w st = (r, st1) \<Longrightarrow> evolves st st1"
  using evolves_get_connection [of st w] by simp

lemma evolves_run_query: "evolves st (snd (run_query w sql st))"
  using evolves_get_connection [of st w]
  unfolding run_query_def
  by (auto split: prod.splits sum.splits intro!: evolves_emit)

lemma evolves_run_query_eq: "run_query w sql st = (r, st1) \<Longrightarrow> evolves st st1"
  using evolves_run_query [of st w sql] by simp

lemma evolves_get_customer_names: "evolves st (snd (get_customer_names w st))"
proof (cases "names_cache st")
  case (Some names)
  then show ?thesis by (simp add: get_customer_names_def)
next
  case None
  obtain r st1 where g: "get_connection w st = (r, st1)" by (cases "get_connection w st")
  have a: "evolves st st1" using g by (rule evolves_get_connection_eq)
  have b: "names_cache st1 = None" using get_connection_names_cache [OF g] None by simp
  have c: "evolves st (emit (ReadSql names_sql c) st1)" for c
    using a by (intro evolves_emit) simp_all
  have d: "evolves st ((emit (ReadSql names_sql c) st1)\<lparr>names_cache := Some names\<rparr>)" for c names
    using c b by (intro evolves_update_names) simp_all
  show ?thesis
    using a c d None g unfolding get_customer_names_def Let_def
    by (simp split: sum.splits)
qed

lemma evolves_dispatch: "evolves st (snd (dispatch w opt cust custom st))"
proof -
  obtain r st1 where g1: "get_connection w st = (r, st1)" by (cases "get_connection w st")
  obtain r2 st2 where g2: "get_connection w st1 = (r2, st2)" by (cases "get_connection w st1")
  have a: "evolves st st1" using g1 by (rule evolves_get_connection_eq)
  have "evolves st1 st2" using g2 by (rule evolves_get_connection_eq)
  then have c: "evolves st st2" using a evolves_trans by blast
  show ?thesis
    unfolding dispatch_def using a c g1 g2
    by (simp split: sum.splits)
qed

lemma evolves_show_and_run: "evolves st (snd (x, show_and_run w sql st))"
proof -
  have "evolves (emit (StCode sql) st) (snd (run_query w sql (emit (StCode sql) st)))"
    by (rule evolves_run_query)
  then have "evolves st (snd (run_query w sql (emit (StCode sql) st)))"
    by (rule evolves_before_emit [rotated]) simp
  then show ?thesis
    unfolding show_and_run_def
    by (auto split: prod.splits sum.splits intro!: evolves_emit)
qed

lemma evolves_results: "evolves st (snd (results w inp cust custom st))"
proof -
  let ?st1 = "emit (Render ResultsSubheader) st"
  have 1: "evolves st ?st1" by (rule evolves_emit) simp_all
  have 2: "evolves ?st1 (snd (dispatch w (query_option inp) cust custom ?st1))"
    by (rule evolves_dispatch)
  note 3 = evolves_trans [OF 1 2]
  have 4: "\<And>sql st2. evolves st st2 \<Longrightarrow> evolves st (show_and_run w sql st2)"
    using evolves_show_and_run evolves_trans by (metis snd_conv)
  show ?thesis
    using 1 3 4 unfolding results_def Let_def
    by (auto split: prod.splits sum.splits)
qed

lemma evolves_ask_ai: "evolves st (snd (ask_ai w key q st))"
proof -
  let ?st1 = "emit (ChatCreate key (make_request q)) (emit (Render Spinner) st)"
  have 1: "evolves st ?st1" by (intro evolves_emit) simp_all
  have m: "snd (ask_model w key q st) = ?st1"
    unfolding ask_model_def Let_def by (auto split: sum.splits)
  have 3: "evolves st st3"
    if "run_query w sql (emits [Render GeneratedSqlSubheader, StCode sql] ?st1) = (r, st3)"
    for sql r st3
  proof -
    have "evolves st (emits [Render GeneratedSqlSubheader, StCode sql] ?st1)"
      using 1 by (intro evolves_emits) simp_all
    then show ?thesis using evolves_run_query_eq [OF that] evolves_trans by blast
  qed
  obtain a st1 where am: "ask_model w key q st = (a, st1)" by (cases "ask_model w key q st")
  then have st1: "st1 = ?st1" using m by simp
  show ?thesis
  proof (cases "truthy (py_strip q)")
    case False
    then show ?thesis by (simp add: ask_ai_def evolves_emit)
  next
    case True
    show ?thesis
    proof (cases a)
      case (Inl e)
      then show ?thesis using True am st1 1 by (simp add: ask_ai_def evolves_emit)
    next
      case (Inr answer)
      obtain r st3 where rq: "run_query w (strip_fences answer)
          (emits [Render GeneratedSqlSubheader, StCode (strip_fences answer)] ?st1) = (r, st3)"
        by (cases "run_query w (strip_fences answer)
          (emits [Render GeneratedSqlSubheader, StCode (strip_fences answer)] ?st1)")
      have "evolves st st3" using rq by (rule 3)
      then show ?thesis
        using True am st1 Inr rq
        by (cases r) (simp_all add: ask_ai_def Let_def evolves_emit evolves_emits)
    qed
  qed
qed

lemma evolves_ai_section: "evolves st (snd (ai_section w key inp st))"
proof -
  let ?st1 = "emits [Render Divider, Render AiHeader, Render QuestionInput, Render AskAiButton] st"
  have 1: "evolves st ?st1" by (rule evolves_emits) simp_all
  have 2: "evolves ?st1 (snd (ask_ai w key (nl_question inp) ?st1))" by (rule evolves_ask_ai)
  show ?thesis
    using 1 evolves_trans [OF 1 2] unfolding ai_section_def Let_def by simp
qed

lemma evolves_dashboard: "evolves st (snd (dashboard w key inp st))"
proof -
  let ?st0 = "emits [Render Title, Render Columns, Render ControlsSubheader] st"
  obtain r st1 where g: "get_customer_names w ?st0 = (r, st1)" by (cases "get_customer_names w ?st0")
  have 0: "evolves st ?st0" by (rule evolves_emits) simp_all
  have "evolves ?st0 st1" using evolves_get_customer_names [of ?st0 w] g by simp
  then have 1: "evolves st st1" using 0 evolves_trans by blast
  show ?thesis
  proof (cases r)
    case (Inl e)
    then show ?thesis using g 1 by (simp add: dashboard_def)
  next
    case (Inr customers)
    define st4 where "st4 = emit (Render RunButton)
        (if query_option inp = ''Custom SQL''
         then emit (Render SqlEditor) (emits [Render (CustomerSelect customers), Render QuerySelect] st1)
         else emits [Render (CustomerSelect customers), Render QuerySelect] st1)"
    define cust where "cust = selectbox customers (customer_index inp)"
    define custom where "custom = (if query_option inp = ''Custom SQL''
                             then text_area sample_sql (custom_sql_text inp) else [])"
    have 4: "evolves st st4"
      unfolding st4_def using 1 by (auto intro!: evolves_emit evolves_emits)
    obtain s st5 where res: "results w inp cust custom st4 = (s, st5)" by (cases "results w inp cust custom st4")
    have "evolves st4 st5" using evolves_results [of st4 w inp cust custom] res by simp
    then have 5: "evolves st st5" using 4 evolves_trans by blast
    have 6: "evolves st (snd (ai_section w key inp st5))"
      using 5 evolves_ai_section evolves_trans by blast
    have "dashboard w key inp st = (case results w inp cust custom st4 of
             (Finished, st5) \<Rightarrow> ai_section w key inp st5
           | (status, st5) \<Rightarrow> (status, st5))"
      using g Inr by (simp add: dashboard_def Let_def st4_def cust_def custom_def)
    then show ?thesis using res 5 6 by (cases s) simp_all
  qed
qed

lemma evolves_script: "evolves st (snd (script w inp st))"
proof -
  let ?st1 = "emits [Render PageConfig, Render SidebarTitle, Render PasswordInput] st"
  have 1: "evolves st ?st1" by (rule evolves_emits) simp_all
  have 2: "evolves st (snd (dashboard w key inp ?st1))" for key
    using 1 evolves_dashboard evolves_trans by blast
  show ?thesis
    using 1 2 unfolding script_def Let_def
    by (auto split: option.splits intro!: evolves_emit)
qed

lemma evolves_runs: "evolves st (runs rs st)"
proof (induction rs arbitrary: st)
  case Nil
  show ?case by simp
next
  case (Cons r rs)
  have "evolves st (snd (script (fst r) (snd r) st))" by (rule evolves_script)
  then show ?case using Cons.IH evolves_trans by auto
qed






section \<open>Where the hosted model is called\<close>

lemma truthy_strip: "truthy (py_strip q) \<longleftrightarrow> \<not> list_all py_isspace q"
  by (simp add: truthy_def py_strip_def strip_with_Nil list_all_iff)

lemma chat_calls_emit:
  "chat_calls (emit e st) = chat_calls st @ (if is_chat_create e then [e] else [])"
  by (simp add: chat_calls_def)

lemma chat_calls_emits:
  "chat_calls (emits es st) = chat_calls st @ filter is_chat_create es"
  by (simp add: chat_calls_def)

lemma sql_runs_emits: "sql_runs (emits es st) = sql_runs st @ filter is_read_sql es"
  by (simp add: sql_runs_def)

lemma chat_calls_get_connection:
  "get_connection w st = (r, st1) \<Longrightarrow> chat_calls st1 = chat_calls st"
  unfolding get_connection_def chat_calls_def
  by (auto split: option.splits sum.splits)

lemma chat_calls_run_query:
  "run_query w sql st = (r, st1) \<Longrightarrow> chat_calls st1 = chat_calls st"
proof -
  assume a: "run_query w sql st = (r, st1)"
  obtain r0 st0 where g: "get_connection w st = (r0, st0)" by (cases "get_connection w st")
  have "chat_calls st0 = chat_calls st" using g by (rule chat_calls_get_connection)
  then show ?thesis using a g
    by (cases r0) (auto simp: run_query_def chat_calls_emit)
qed

lemma chat_calls_get_customer_names:
  "get_customer_names w st = (r, st1) \<Longrightarrow> chat_calls st1 = chat_calls st"
proof -
  assume a: "get_customer_names w st = (r, st1)"
  obtain r0 st0 where g: "get_connection w st = (r0, st0)" by (cases "get_connection w st")
  have c: "chat_calls st0 = chat_calls st" using g by (rule chat_calls_get_connection)
  have d: "chat_calls (x\<lparr>names_cache := v\<rparr>) = chat_calls x" for x v
    by (simp add: chat_calls_def)
  show ?thesis using a g c
    by (cases "names_cache st"; cases r0)
      (auto simp: get_customer_names_def Let_def chat_calls_emit d split: sum.splits)
qed

lemma chat_calls_dispatch:
  "dispatch w opt cust custom st = (r, st') \<Longrightarrow> chat_calls st' = chat_calls st"
proof -
  assume a: "dispatch w opt cust custom st = (r, st')"
  obtain r1 st1 where g1: "get_connection w st = (r1, st1)" by (cases "get_connection w st")
  obtain r2 st2 where g2: "get_connection w st1 = (r2, st2)" by (cases "get_connection w st1")
  have c1: "chat_calls st1 = chat_calls st" using g1 by (rule chat_calls_get_connection)
  have "chat_calls st2 = chat_calls st1" using g2 by (rule chat_calls_get_connection)
  then have c2: "chat_calls st2 = chat_calls st" using c1 by simp
  show ?thesis
    using a g1 g2 c1 c2 unfolding dispatch_def
    by (cases r1; cases r2) (auto split: if_splits)
qed

lemma chat_calls_show_and_run:
  "chat_calls (show_and_run w sql st) = chat_calls st"
proof -
  obtain r st1 where q: "run_query w sql (emit (StCode sql) st) = (r, st1)"
    by (cases "run_query w sql (emit (StCode sql) st)")
  have "chat_calls st1 = chat_calls (emit (StCode sql) st)" using q by (rule chat_calls_run_query)
  then show ?thesis using q
    by (cases r) (simp_all add: show_and_run_def chat_calls_emit)
qed

lemma chat_calls_results:
  "results w inp cust custom st = (r, st') \<Longrightarrow> chat_calls st' = chat_calls st"
proof -
  assume a: "results w inp cust custom st = (r, st')"
  let ?st1 = "emit (Render ResultsSubheader) st"
  obtain r1 st2 where d: "dispatch w (query_option inp) cust custom ?st1 = (r1, st2)"
    by (cases "dispatch w (query_option inp) cust custom ?st1")
  have "chat_calls st2 = chat_calls ?st1" using d by (rule chat_calls_dispatch)
  then have c: "chat_calls st2 = chat_calls st" by (simp add: chat_calls_emit)
  show ?thesis using a d c
    by (cases r1; cases "run_button inp")
      (auto simp: results_def Let_def chat_calls_emit chat_calls_show_and_run)
qed

lemma ask_ai_blank:
  "list_all py_isspace q \<Longrightarrow>
     ask_ai w key q st = (Finished, emit (StWarning ''Please type a question.'') st)"
  by (simp add: ask_ai_def truthy_strip)

lemma chat_calls_ask_ai:
  "\<not> list_all py_isspace q \<Longrightarrow>
     chat_calls (snd (ask_ai w key q st)) = chat_calls st @ [ChatCreate key (make_request q)]"
proof -
  assume nb: "\<not> list_all py_isspace q"
  let ?st1 = "emit (ChatCreate key (make_request q)) (emit (Render Spinner) st)"
  have c1: "chat_calls ?st1 = chat_calls st @ [ChatCreate key (make_request q)]"
    by (simp add: chat_calls_emit)
  obtain a st1 where am: "ask_model w key q st = (a, st1)" by (cases "ask_model w key q st")
  have st1: "st1 = ?st1"
    using am unfolding ask_model_def Let_def by (auto split: sum.splits)
  show ?thesis
  proof (cases a)
    case (Inl e)
    then show ?thesis using nb am st1 c1 by (simp add: ask_ai_def truthy_strip chat_calls_emit)
  next
    case (Inr answer)
    let ?st2 = "emits [Render GeneratedSqlSubheader, StCode (strip_fences answer)] ?st1"
    obtain r st3 where rq: "run_query w (strip_fences answer) ?st2 = (r, st3)"
      by (cases "run_query w (strip_fences answer) ?st2")
    have "chat_calls st3 = chat_calls ?st2" using rq by (rule chat_calls_run_query)
    then have "chat_calls st3 = chat_calls st @ [ChatCreate key (make_request q)]"
      using c1 by (simp add: chat_calls_emits)
    then show ?thesis
      using nb am st1 Inr rq
      by (cases r) (simp_all add: ask_ai_def truthy_strip Let_def chat_calls_emit chat_calls_emits)
  qed
qed

lemma chat_calls_script_blank:
  assumes "list_all py_isspace (nl_question inp)"
  shows "chat_calls (snd (script w inp st)) = chat_calls st"
proof -
  have ai: "chat_calls (snd (ai_section w key inp s)) = chat_calls s" for key s
    using assms by (simp add: ai_section_def Let_def ask_ai_blank chat_calls_emit chat_calls_emits)
  have dash: "chat_calls (snd (dashboard w key inp s)) = chat_calls s" for key s
  proof -
    let ?st0 = "emits [Render Title, Render Columns, Render ControlsSubheader] s"
    obtain r st1 where g: "get_customer_names w ?st0 = (r, st1)"
      by (cases "get_customer_names w ?st0")
    have "chat_calls st1 = chat_calls ?st0" using g by (rule chat_calls_get_customer_names)
    then have 1: "chat_calls st1 = chat_calls s" by (simp add: chat_calls_emits)
    show ?thesis
    proof (cases r)
      case (Inl e)
      then show ?thesis using g 1 by (simp add: dashboard_def)
    next
      case (Inr customers)
      define st4 where "st4 = emit (Render RunButton)
        (if query_option inp = ''Custom SQL''
         then emit (Render SqlEditor) (emits [Render (CustomerSelect customers), Render QuerySelect] st1)
         else emits [Render (CustomerSelect customers), Render QuerySelect] st1)"
      define cust where "cust = selectbox customers (customer_index inp)"
      define custom where "custom = (if query_option inp = ''Custom SQL''
                             then text_area sample_sql (custom_sql_text inp) else [])"
      have 4: "chat_calls st4 = chat_calls s"
        unfolding st4_def using 1 by (simp add: chat_calls_emit chat_calls_emits)
      obtain x st5 where res: "results w inp cust custom st4 = (x, st5)"
        by (cases "results w inp cust custom st4")
      have "chat_calls st5 = chat_calls st4" using res by (rule chat_calls_results)
      then have 5: "chat_calls st5 = chat_calls s" using 4 by simp
      have "dashboard w key inp s = (case results w inp cust custom st4 of
             (Finished, st5) \<Rightarrow> ai_section w key inp st5
           | (status, st5) \<Rightarrow> (status, st5))"
        using g Inr by (simp add: dashboard_def Let_def st4_def cust_def custom_def)
      then show ?thesis using res 5 ai by (cases x) simp_all
    qed
  qed
  show ?thesis
    unfolding script_def Let_def
    by (simp add: dash chat_calls_emit chat_calls_emits split: option.splits)
qed


section \<open>The dispatcher\<close>

text \<open>
  Claim C2, as it is written: in custom mode an empty text would be replaced by the sample
  statement. In the run below the user has emptied the editor and pressed \<open>Run query\<close>: the
  empty statement is given to \<open>pd.read_sql_query\<close>, and the sample statement is not.
\<close>

theorem custom_empty_is_executed:
  "ReadSql [] (Conn 0) \<in> set (trace (snd (script demo_world demo_inputs init_state)))
   \<and> ReadSql sample_sql (Conn 0) \<notin> set (trace (snd (script demo_world demo_inputs init_state)))"
  by code_simp

text \<open>
  Claim C2, amended. The editor holds the sample statement as long as the user has not
  edited it, and the user's text afterwards, the empty text included; in custom mode the
  dispatcher returns the text of the editor as it is, and \<open>Run query\<close> shows and runs
  exactly that text.
\<close>

theorem custom_sql_verbatim:
  "dispatch w ''Custom SQL'' cust (text_area sample_sql None) st = (Inr sample_sql, st)
   \<and> dispatch w ''Custom SQL'' cust (text_area sample_sql (Some t)) st = (Inr t, st)
   \<and> (run_button inp \<and> query_option inp = ''Custom SQL'' \<longrightarrow>
        results w inp cust sql st
          = (Finished, show_and_run w sql (emit (Render ResultsSubheader) st)))"
  by (simp add: dispatch_def text_area_def results_def Let_def)

text \<open>With the editor emptied, the empty statement is what is shown and run.\<close>

theorem custom_sql_verbatim_witness:
  "results demo_world demo_inputs CNull (text_area sample_sql (custom_sql_text demo_inputs)) connected_state
     = (Finished, show_and_run demo_world [] (emit (Render ResultsSubheader) connected_state))"
proof -
  have "run_button demo_inputs \<and> query_option demo_inputs = ''Custom SQL''"
    by (simp add: demo_inputs_def)
  then show ?thesis
    using custom_sql_verbatim [of demo_world CNull connected_state "[]" demo_inputs "[]"]
    by (simp add: demo_inputs_def text_area_def)
qed

text \<open>
  Claim C7. In the mode \<open>All customers total (ex3)\<close> the dispatcher gives the same statement
  (and leaves the same state) for any two selected customers: \<open>ex3\<close> is called with the
  connection only.
\<close>

theorem all_totals_ignores_customer:
  "dispatch w ''All customers total (ex3)'' customer1 custom1 st
     = dispatch w ''All customers total (ex3)'' customer2 custom2 st"
  by (simp add: dispatch_def)


section \<open>Errors of the query executor\<close>

text \<open>
  Claim C4, as it is written: the text of the error banner would be the message of the
  engine. For the statement \<open>SELEC * FROM Customer\<close>, which the engine of \<open>demo_world\<close>
  rejects with the message \<open>syntax error\<close>, the banner reads
  \<open>Error running query: syntax error\<close>, and no banner reads \<open>syntax error\<close>.
\<close>

theorem rejected_sql_display_has_label:
  "read_sql_query demo_world ''SELEC * FROM Customer'' (Conn 0) = Inl (Exn ''syntax error'')
   \<and> trace (show_and_run demo_world ''SELEC * FROM Customer'' connected_state)
       = [Opened (Conn 0), StCode ''SELEC * FROM Customer'',
          ReadSql ''SELEC * FROM Customer'' (Conn 0),
          StError ''Error running query: syntax error'']
   \<and> StError ''syntax error''
       \<notin> set (trace (show_and_run demo_world ''SELEC * FROM Customer'' connected_state))"
  by code_simp

text \<open>
  Claim C4, amended. When the connection provider gives \<open>c\<close> and the engine rejects \<open>sql\<close>
  on \<open>c\<close> with the exception \<open>e\<close>, the statement is shown, run once, and an error banner
  follows whose text is the label \<open>Error running query: \<close> followed by the text of \<open>e\<close>
  unchanged. The exception goes no further: whenever the dispatcher has delivered a
  statement, the right column finishes normally. On the path of \<open>Ask AI\<close>, when \<open>sql\<close> is
  the cleaned answer of the model, the same happens with the label
  \<open>SQL execution error: \<close>, and the handler finishes normally.
\<close>

theorem rejected_sql_shown_inline:
  assumes "fst (get_connection w st) = Inr c" and "read_sql_query w sql c = Inl e"
  shows "trace (show_and_run w sql st)
           = trace st @ [StCode sql] @ (if conn_cache st = None then [Opened c] else [])
               @ [ReadSql sql c, StError (''Error running query: '' @ exn_text e)]
         \<and> (run_button inp
              \<and> dispatch w (query_option inp) cust custom (emit (Render ResultsSubheader) st0)
                  = (Inr sql, st)
             \<longrightarrow> results w inp cust custom st0 = (Finished, show_and_run w sql st))
         \<and> (\<not> list_all py_isspace q
              \<and> chat_create w key (make_request q) = Inr (Some content # others)
              \<and> clean_answer content = sql
             \<longrightarrow> fst (ask_ai w key q st) = Finished
                 \<and> trace (snd (ask_ai w key q st))
                     = trace st @ [Render Spinner, ChatCreate key (make_request q),
                                   Render GeneratedSqlSubheader, StCode sql]
                         @ (if conn_cache st = None then [Opened c] else [])
                         @ [ReadSql sql c, StError (''SQL execution error: '' @ exn_text e)])"
proof -
  obtain r1 s1 where q1: "run_query w sql (emit (StCode sql) st) = (r1, s1)"
    by (cases "run_query w sql (emit (StCode sql) st)")
  have "fst (run_query w sql (emit (StCode sql) st)) = Inl e
         \<and> trace (snd (run_query w sql (emit (StCode sql) st)))
             = trace (emit (StCode sql) st) @ (if conn_cache st = None then [Opened c] else [])
                 @ [ReadSql sql c]"
    using assms by (rule run_query_rejected) simp
  then have r1: "r1 = Inl e"
    and t1: "trace s1 = trace st @ [StCode sql] @ (if conn_cache st = None then [Opened c] else [])
                 @ [ReadSql sql c]"
    using q1 by simp_all
  have 1: "trace (show_and_run w sql st)
           = trace st @ [StCode sql] @ (if conn_cache st = None then [Opened c] else [])
               @ [ReadSql sql c, StError (''Error running query: '' @ exn_text e)]"
    using q1 r1 t1 by (simp add: show_and_run_def)
  have 2: "run_button inp
              \<and> dispatch w (query_option inp) cust custom (emit (Render ResultsSubheader) st0)
                  = (Inr sql, st)
             \<longrightarrow> results w inp cust custom st0 = (Finished, show_and_run w sql st)"
    by (simp add: results_def Let_def)
  have 3: "fst (ask_ai w key q st) = Finished
                 \<and> trace (snd (ask_ai w key q st))
                     = trace st @ [Render Spinner, ChatCreate key (make_request q),
                                   Render GeneratedSqlSubheader, StCode sql]
                         @ (if conn_cache st = None then [Opened c] else [])
                         @ [ReadSql sql c, StError (''SQL execution error: '' @ exn_text e)]"
    if nb: "\<not> list_all py_isspace q"
      and ans: "chat_create w key (make_request q) = Inr (Some content # others)"
      and cl: "clean_answer content = sql"
  proof -
    let ?st1 = "emit (ChatCreate key (make_request q)) (emit (Render Spinner) st)"
    let ?st2 = "emits [Render GeneratedSqlSubheader, StCode sql] ?st1"
    have am: "ask_model w key q st = (Inr (py_strip content), ?st1)"
      using ans by (simp add: ask_model_def first_content_def Let_def)
    have sf: "strip_fences (py_strip content) = sql" using cl by (simp add: clean_answer_def)
    obtain r2 s2 where q2: "run_query w sql ?st2 = (r2, s2)" by (cases "run_query w sql ?st2")
    have "fst (run_query w sql ?st2) = Inl e
         \<and> trace (snd (run_query w sql ?st2))
             = trace ?st2 @ (if conn_cache st = None then [Opened c] else []) @ [ReadSql sql c]"
      using assms by (rule run_query_rejected) simp
    then have r2: "r2 = Inl e"
      and t2: "trace s2 = trace ?st2 @ (if conn_cache st = None then [Opened c] else [])
                 @ [ReadSql sql c]"
      using q2 by simp_all
    have "ask_ai w key q st = (Finished, emit (StError (''SQL execution error: '' @ exn_text e)) s2)"
      using nb am sf q2 r2 by (simp add: ask_ai_def truthy_strip Let_def)
    then show ?thesis using t2 by simp
  qed
  show ?thesis using 1 2 3 by blast
qed

text \<open>The misspelt statement in \<open>demo_world\<close>, in custom mode with \<open>Run query\<close> pressed, and
  a misspelt answer of the model in \<open>answering_world\<close>.\<close>

theorem rejected_sql_shown_inline_witness:
  "fst (get_connection demo_world (emit (Render ResultsSubheader) connected_state)) = Inr (Conn 0)
   \<and> read_sql_query demo_world ''SELEC * FROM Customer'' (Conn 0) = Inl (Exn ''syntax error'')
   \<and> fst (results demo_world demo_inputs CNull ''SELEC * FROM Customer'' connected_state)
       = Finished
   \<and> trace (snd (results demo_world demo_inputs CNull ''SELEC * FROM Customer'' connected_state))
       = [Opened (Conn 0), Render ResultsSubheader, StCode ''SELEC * FROM Customer'',
          ReadSql ''SELEC * FROM Customer'' (Conn 0),
          StError ''Error running query: syntax error'']
   \<and> fst (get_connection answering_world init_state) = Inr (Conn 0)
   \<and> read_sql_query answering_world ''SELEC 1;'' (Conn 0) = Inl (Exn ''syntax error'')
   \<and> \<not> list_all py_isspace ''top 5''
   \<and> chat_create answering_world ''k'' (make_request ''top 5'')
       = Inr [Some ''```sql\<newline>SELEC 1;\<newline>```'']
   \<and> clean_answer ''```sql\<newline>SELEC 1;\<newline>```'' = ''SELEC 1;''
   \<and> fst (ask_ai answering_world ''k'' ''top 5'' init_state) = Finished
   \<and> trace (snd (ask_ai answering_world ''k'' ''top 5'' init_state))
       = [Render Spinner, ChatCreate ''k'' (make_request ''top 5''),
          Render GeneratedSqlSubheader, StCode ''SELEC 1;'', Opened (Conn 0),
          ReadSql ''SELEC 1;'' (Conn 0), StError ''SQL execution error: syntax error'']"
proof -
  let ?st = "emit (Render ResultsSubheader) connected_state"
  have c: "fst (get_connection demo_world ?st) = Inr (Conn 0)"
    by (simp add: get_connection_def connected_state_def)
  have r: "read_sql_query demo_world ''SELEC * FROM Customer'' (Conn 0) = Inl (Exn ''syntax error'')"
    by (simp add: demo_world_def names_sql_def sample_sql_def)
  have d: "run_button demo_inputs
           \<and> dispatch demo_world (query_option demo_inputs) CNull ''SELEC * FROM Customer'' ?st
               = (Inr ''SELEC * FROM Customer'', ?st)"
    by (simp add: demo_inputs_def dispatch_def)
  note t = rejected_sql_shown_inline [OF c r, where inp = demo_inputs and cust = CNull
      and custom = "''SELEC * FROM Customer''" and ?st0.0 = connected_state]
  have 1: "results demo_world demo_inputs CNull ''SELEC * FROM Customer'' connected_state
             = (Finished, show_and_run demo_world ''SELEC * FROM Customer'' ?st)"
    using t d by blast
  have 2: "trace (show_and_run demo_world ''SELEC * FROM Customer'' ?st)
       = [Opened (Conn 0), Render ResultsSubheader, StCode ''SELEC * FROM Customer'',
          ReadSql ''SELEC * FROM Customer'' (Conn 0),
          StError ''Error running query: syntax error'']"
    using t by (simp add: connected_state_def)
  have c': "fst (get_connection answering_world init_state) = Inr (Conn 0)"
    by (simp add: get_connection_def init_state_def answering_world_def demo_world_def)
  have r': "read_sql_query answering_world ''SELEC 1;'' (Conn 0) = Inl (Exn ''syntax error'')"
    by (simp add: answering_world_def demo_world_def names_sql_def sample_sql_def)
  have n: "\<not> list_all py_isspace ''top 5''" by (simp add: py_isspace_def)
  have a: "chat_create answering_world ''k'' (make_request ''top 5'')
       = Inr [Some ''```sql\<newline>SELEC 1;\<newline>```'']"
    by (simp add: answering_world_def)
  have cl: "clean_answer ''```sql\<newline>SELEC 1;\<newline>```'' = ''SELEC 1;''"
    by code_simp
  note t' = rejected_sql_shown_inline [OF c' r', where q = "''top 5''" and key = "''k''"
      and content = "''```sql\<newline>SELEC 1;\<newline>```''" and others = "[]"]
  have 3: "fst (ask_ai answering_world ''k'' ''top 5'' init_state) = Finished
   \<and> trace (snd (ask_ai answering_world ''k'' ''top 5'' init_state))
       = [Render Spinner, ChatCreate ''k'' (make_request ''top 5''),
          Render GeneratedSqlSubheader, StCode ''SELEC 1;'', Opened (Conn 0),
          ReadSql ''SELEC 1;'' (Conn 0), StError ''SQL execution error: syntax error'']"
    using t' n a cl by (simp add: init_state_def)
  show ?thesis using c r 1 2 c' r' n a cl 3 by simp
qed

text \<open>A run of the handler where the model answers with a fenced, misspelt statement.\<close>

lemma ask_ai_fenced_answer:
  "ask_ai answering_world ''k'' ''top 5'' connected_state
     = (Finished,
        \<lparr>conn_cache = Some (Conn 0), names_cache = None,
         trace = [Opened (Conn 0), Render Spinner, ChatCreate ''k'' (make_request ''top 5''),
                  Render GeneratedSqlSubheader, StCode ''SELEC 1;'',
                  ReadSql ''SELEC 1;'' (Conn 0),
                  StError ''SQL execution error: syntax error'']\<rparr>)"
  by code_simp


section \<open>The question and the hosted model\<close>

text \<open>
  Claim C3. Pressing \<open>Ask AI\<close> with a question that is empty or has whitespace only gives
  the warning and nothing else, and the hosted model is not called, neither by the handler
  nor anywhere in the run; with a question that has a character that is no whitespace, the
  handler calls the hosted model, once, with the request built from the question.
\<close>

theorem blank_question_not_sent:
  "(list_all py_isspace q \<longrightarrow>
      ask_ai w key q st = (Finished, emit (StWarning ''Please type a question.'') st)
      \<and> chat_calls (snd (ask_ai w key q st)) = chat_calls st)
   \<and> (\<not> list_all py_isspace q \<longrightarrow>
      chat_calls (snd (ask_ai w key q st)) = chat_calls st @ [ChatCreate key (make_request q)])
   \<and> (list_all py_isspace (nl_question inp) \<longrightarrow>
      chat_calls (snd (script w inp st)) = chat_calls st)"
  by (simp add: ask_ai_blank chat_calls_ask_ai chat_calls_script_blank chat_calls_emit)

text \<open>A question of a space and a line feed, and the question \<open>top 5\<close>.\<close>

theorem blank_question_not_sent_witness:
  "list_all py_isspace '' \<newline>''
   \<and> ask_ai demo_world ''k'' '' \<newline>'' init_state
       = (Finished, \<lparr>conn_cache = None, names_cache = None,
                     trace = [StWarning ''Please type a question.'']\<rparr>)
   \<and> \<not> list_all py_isspace ''top 5''
   \<and> chat_calls (snd (ask_ai demo_world ''k'' ''top 5'' init_state))
       = [ChatCreate ''k'' (make_request ''top 5'')]
   \<and> chat_calls (snd (script demo_world (demo_inputs\<lparr>nl_question := '' \<newline>'', ask_ai_button := True\<rparr>) init_state)) = []"
proof -
  have b: "list_all py_isspace '' \<newline>''" by (simp add: py_isspace_def)
  have n: "\<not> list_all py_isspace ''top 5''" by (simp add: py_isspace_def)
  have b': "list_all py_isspace (nl_question (demo_inputs\<lparr>nl_question := '' \<newline>'', ask_ai_button := True\<rparr>))"
    using b by simp 
  have i: "chat_calls init_state = []" by (simp add: chat_calls_def init_state_def)
  have 1: "ask_ai demo_world ''k'' '' \<newline>'' init_state
       = (Finished, \<lparr>conn_cache = None, names_cache = None,
                     trace = [StWarning ''Please type a question.'']\<rparr>)"
    using b blank_question_not_sent [of "'' \<newline>''" demo_world "''k''" init_state demo_inputs]
    by (simp add: emit_def init_state_def)
  have 2: "chat_calls (snd (ask_ai demo_world ''k'' ''top 5'' init_state))
       = [ChatCreate ''k'' (make_request ''top 5'')]"
    using n i blank_question_not_sent [of "''top 5''" demo_world "''k''" init_state demo_inputs]
    by simp
  have 3: "chat_calls (snd (script demo_world (demo_inputs\<lparr>nl_question := '' \<newline>'', ask_ai_button := True\<rparr>) init_state)) = []"
    using b' i blank_question_not_sent [of "[]" demo_world "''k''" init_state
        "demo_inputs\<lparr>nl_question := '' \<newline>'', ask_ai_button := True\<rparr>"]
    by simp
  show ?thesis using b n 1 2 3 by blast
qed

text \<open>
  Claim C5. When the call of the hosted model raises \<open>e\<close>, the handler shows an error
  banner with the text of \<open>e\<close> behind the label \<open>Groq API error: \<close> and stops the run there:
  the model has been called once, no statement is run and no connection is opened.
\<close>

theorem model_failure_stops_action:
  assumes "\<not> list_all py_isspace q" and "chat_create w key (make_request q) = Inl e"
  shows "ask_ai w key q st
           = (Stopped, emits [Render Spinner, ChatCreate key (make_request q),
                              StError (''Groq API error: '' @ exn_text e)] st)
         \<and> chat_calls (snd (ask_ai w key q st)) = chat_calls st @ [ChatCreate key (make_request q)]
         \<and> sql_runs (snd (ask_ai w key q st)) = sql_runs st
         \<and> opened (snd (ask_ai w key q st)) = opened st"
proof -
  have "ask_ai w key q st
           = (Stopped, emits [Render Spinner, ChatCreate key (make_request q),
                              StError (''Groq API error: '' @ exn_text e)] st)"
    using assms by (simp add: ask_ai_def ask_model_def truthy_strip Let_def emit_def emits_def)
  then show ?thesis
    by (simp add: chat_calls_emits sql_runs_emits opened_def)
qed

text \<open>The model of \<open>demo_world\<close> is out of reach.\<close>

theorem model_failure_stops_action_witness:
  "\<not> list_all py_isspace ''top 5''
   \<and> chat_create demo_world ''k'' (make_request ''top 5'') = Inl (Exn ''rate limit reached'')
   \<and> ask_ai demo_world ''k'' ''top 5'' init_state
       = (Stopped, \<lparr>conn_cache = None, names_cache = None,
                    trace = [Render Spinner, ChatCreate ''k'' (make_request ''top 5''),
                             StError ''Groq API error: rate limit reached'']\<rparr>)"
proof -
  have n: "\<not> list_all py_isspace ''top 5''" by (simp add: py_isspace_def)
  have f: "chat_create demo_world ''k'' (make_request ''top 5'') = Inl (Exn ''rate limit reached'')"
    by (simp add: demo_world_def)
  show ?thesis
    using n f model_failure_stops_action [OF n f, of init_state]
    by (simp add: emits_def init_state_def)
qed


section \<open>Memoised names and connection\<close>

text \<open>
  Claim C6. Once \<open>get_customer_names\<close> has returned a list, every later call in the same
  process returns the same list, in the same order, and changes nothing, in whatever world
  \<open>w'\<close> the later call is made (the Customer table may have changed) and after any number
  of runs of the script in between.
\<close>

theorem customer_names_stable:
  assumes "get_customer_names w st = (Inr names, st1)"
  shows "get_customer_names w' st1 = (Inr names, st1)
         \<and> get_customer_names w' (runs rs st1) = (Inr names, runs rs st1)"
proof -
  have c: "names_cache st1 = Some names" using assms by (rule get_customer_names_cached)
  have "evolves st1 (runs rs st1)" by (rule evolves_runs)
  then have "names_cache (runs rs st1) = Some names" using c by (simp add: evolves_def)
  with c show ?thesis by (simp add: get_customer_names_def)
qed

text \<open>The first call sees Ann Lee and Bo Ray; after the table has changed to Cy Poe alone,
  the second call still returns Ann Lee and Bo Ray.\<close>

theorem customer_names_stable_witness:
  "get_customer_names demo_world connected_state
     = (Inr [CText ''Ann Lee'', CText ''Bo Ray''],
        \<lparr>conn_cache = Some (Conn 0),
         names_cache = Some [CText ''Ann Lee'', CText ''Bo Ray''],
         trace = [Opened (Conn 0), ReadSql names_sql (Conn 0)]\<rparr>)
   \<and> fst (get_customer_names changed_world connected_state) = Inr [CText ''Cy Poe'']
   \<and> fst (get_customer_names changed_world
             \<lparr>conn_cache = Some (Conn 0),
              names_cache = Some [CText ''Ann Lee'', CText ''Bo Ray''],
              trace = [Opened (Conn 0), ReadSql names_sql (Conn 0)]\<rparr>)
       = Inr [CText ''Ann Lee'', CText ''Bo Ray'']"
proof -
  let ?st1 = "\<lparr>conn_cache = Some (Conn 0),
         names_cache = Some [CText ''Ann Lee'', CText ''Bo Ray''],
         trace = [Opened (Conn 0), ReadSql names_sql (Conn 0)]\<rparr>"
  have h: "get_customer_names demo_world connected_state
     = (Inr [CText ''Ann Lee'', CText ''Bo Ray''], ?st1)"
    by (simp add: get_customer_names_def get_connection_def connected_state_def demo_world_def
        column_tolist_def emit_def Let_def)
  have c: "fst (get_customer_names changed_world connected_state) = Inr [CText ''Cy Poe'']"
    by (simp add: get_customer_names_def get_connection_def connected_state_def demo_world_def
        changed_world_def column_tolist_def emit_def Let_def)
  have "get_customer_names changed_world ?st1 = (Inr [CText ''Ann Lee'', CText ''Bo Ray''], ?st1)"
    using customer_names_stable [OF h, of changed_world "[]"] by simp
  with h c show ?thesis by simp
qed




section \<open>Start-up\<close>

text \<open>
  Claim C9. Without \<open>GROQ_API_KEY\<close> in the environment a run shows the error and stops:
  the error is the only effect of the run, so there is no login prompt, no query control
  and no call of the hosted model.
\<close>

theorem missing_key_halts:
  assumes "getenv w ''GROQ_API_KEY'' = None"
  shows "script w inp st
           = (Stopped, emit (StError ''GROQ_API_KEY not found in environment.'') st)"
  using assms by (simp add: script_def Let_def)

text \<open>A run in the world without the key.\<close>

theorem missing_key_halts_witness:
  "getenv keyless_world ''GROQ_API_KEY'' = None
   \<and> script keyless_world demo_inputs init_state
       = (Stopped, \<lparr>conn_cache = None, names_cache = None,
                    trace = [StError ''GROQ_API_KEY not found in environment.'']\<rparr>)"
proof -
  have h: "getenv keyless_world ''GROQ_API_KEY'' = None"
    by (simp add: keyless_world_def)
  show ?thesis
    using h missing_key_halts [OF h, of demo_inputs init_state]
    by (simp add: emit_def init_state_def)
qed

text \<open>A key that is set to the empty text counts as missing.\<close>

lemma empty_key_halts:
  "getenv w ''GROQ_API_KEY'' = Some [] \<Longrightarrow>
     script w inp st = (Stopped, emit (StError ''GROQ_API_KEY not found in environment.'') st)"
  by (simp add: script_def Let_def truthy_def)

end
